theory Spec2Isabelle
  imports Complex_Main "HOL-Library.Multiset" "HOL-Library.Log_Nat"
begin

unbundle bit_operations_syntax

section \<open>NumPy values\<close>

text \<open>
  The loaders of \<^verbatim>\<open>grapple/data/torch.py\<close> work on NumPy arrays. A one-dimensional
  array is a list, a two-dimensional array a list of rows, a three-dimensional array a
  list of two-dimensional arrays. Floating-point elements are real numbers (finite
  values, arithmetic without rounding); integer elements are \<^typ>\<open>int\<close>. The shape of
  an array with no rows is not represented. Every exception the array library raises on
  the paths modelled here is a value of \<open>error\<close>.
\<close>

datatype error = IndexError | ValueError | KeyError

text \<open>
  \<^verbatim>\<open>cone_adj\<close> of \<^verbatim>\<open>PUDataset\<close> returns a float matrix on one path
  (\<^verbatim>\<open>np.eye\<close>) and a boolean matrix on the other; \<^verbatim>\<open>np.logical_and\<close> and
  \<^verbatim>\<open>astype\<close> read an element of either kind as a truth value (nonzero is true).
\<close>

datatype matrix = FloatM "real list list" | BoolM "bool list list"

fun truth :: "matrix \<Rightarrow> bool list list" where
  "truth (FloatM m) = map (map (\<lambda>v. v \<noteq> 0)) m"
| "truth (BoolM m) = m"

text \<open>\<^verbatim>\<open>np.eye(n, n)\<close> and \<^verbatim>\<open>np.eye(n)\<close>.\<close>

definition eye :: "nat \<Rightarrow> real list list" where
  "eye n = map (\<lambda>i. map (\<lambda>j. if i = j then 1 else 0) [0..<n]) [0..<n]"

text \<open>\<^verbatim>\<open>v[:, np.newaxis] - v\<close>: entry \<open>(i, j)\<close> is \<open>v[i] - v[j]\<close>.\<close>

definition outer_diff :: "real list \<Rightarrow> real list list" where
  "outer_diff v = map (\<lambda>a. map (\<lambda>b. a - b) v) v"

text \<open>\<^verbatim>\<open>np.square\<close>, elementwise.\<close>

definition square :: "real list list \<Rightarrow> real list list" where
  "square m = map (map (\<lambda>d. d * d)) m"

text \<open>
  \<^verbatim>\<open>a + b\<close> for two square matrices, of shapes \<open>(n, n)\<close> and \<open>(m, m)\<close>: elementwise
  when \<open>n = m\<close>; when one of them is \<open>1 \<times> 1\<close> its single element is broadcast; any
  other pair of shapes raises \<^verbatim>\<open>ValueError\<close>.
\<close>

definition add_square :: "real list list \<Rightarrow> real list list \<Rightarrow> error + real list list" where
  "add_square a b =
     (if length a = length b then Inr (map2 (map2 (+)) a b)
      else if length a = 1 then Inr (map (map (\<lambda>v. hd (hd a) + v)) b)
      else if length b = 1 then Inr (map (map (\<lambda>v. v + hd (hd b))) a)
      else Inl ValueError)"

section \<open>PUDataset.cone\_adj\<close>

text \<open>
  \<^verbatim>\<open>
  def cone_adj(eta, phi, cone=0.4):
      if cone == 0.0:
          N = eta.shape[0]
          return np.eye(N, N)
      deta2 = np.square(eta[:,np.newaxis] - eta)
      dphi2 = np.square(phi[:,np.newaxis] - phi)
      dr2 = deta2 + dphi2
      cone2 = cone ** 2
      adj = (dr2 <= cone2)
      return adj
  \<close>
\<close>

definition cone_adj :: "real list \<Rightarrow> real list \<Rightarrow> real \<Rightarrow> error + matrix" where
  "cone_adj eta phi cone =
     (if cone = 0 then Inr (FloatM (eye (length eta)))
      else
        let deta2 = square (outer_diff eta);
            dphi2 = square (outer_diff phi)
        in case add_square deta2 dphi2 of
             Inl e \<Rightarrow> Inl e
           | Inr dr2 \<Rightarrow>
               let cone2 = cone ^ 2 in Inr (BoolM (map (map (\<lambda>d. d \<le> cone2)) dr2)))"

section \<open>Python slices and NumPy indexing\<close>

text \<open>\<^verbatim>\<open>xs[:k]\<close>: \<^verbatim>\<open>None\<close> keeps everything, a negative bound counts from the end.\<close>

definition py_upto :: "int option \<Rightarrow> 'a list \<Rightarrow> 'a list" where
  "py_upto k xs =
     (case k of
        None \<Rightarrow> xs
      | Some n \<Rightarrow> if n < 0 then take (nat (int (length xs) + n)) xs else take (nat n) xs)"

text \<open>\<^verbatim>\<open>a[i]\<close> for an index \<open>i\<close> drawn from \<^verbatim>\<open>np.arange\<close>.\<close>

definition item :: "'a list \<Rightarrow> nat \<Rightarrow> error + 'a" where
  "item xs i = (if i < length xs then Inr (xs ! i) else Inl IndexError)"

text \<open>\<^verbatim>\<open>x[:, k]\<close>: column \<open>k\<close> of a two-dimensional array.\<close>

definition column :: "nat \<Rightarrow> 'a list list \<Rightarrow> error + 'a list" where
  "column k x =
     (if list_all (\<lambda>row. k < length row) x then Inr (map (\<lambda>row. row ! k) x)
      else Inl IndexError)"

text \<open>
  An integer index \<open>k\<close> into an axis of length \<open>n\<close>: \<open>-n \<le> k < n\<close>, negative ones
  count from the end, anything else raises \<^verbatim>\<open>IndexError\<close>.
\<close>

definition wrap_index :: "nat \<Rightarrow> int \<Rightarrow> error + nat" where
  "wrap_index n k =
     (if 0 \<le> k \<and> k < int n then Inr (nat k)
      else if k < 0 \<and> - int n \<le> k then Inr (nat (k + int n))
      else Inl IndexError)"

text \<open>\<^verbatim>\<open>ys[idx] = v\<close> where \<open>idx\<close> is an integer array: every position it names is set.\<close>

fun put_at :: "int list \<Rightarrow> 'a \<Rightarrow> 'a list \<Rightarrow> error + 'a list" where
  "put_at [] v ys = Inr ys"
| "put_at (k # ks) v ys =
     (case wrap_index (length ys) k of
        Inl e \<Rightarrow> Inl e
      | Inr j \<Rightarrow> put_at ks v (ys[j := v]))"

text \<open>
  \<^verbatim>\<open>ys[b] = v\<close> where \<open>b\<close> is a boolean array: the positions where \<open>b\<close> is true are
  set; \<open>b\<close> must have the length of \<open>ys\<close>.
\<close>

definition put_where :: "bool list \<Rightarrow> 'a \<Rightarrow> 'a list \<Rightarrow> error + 'a list" where
  "put_where b v ys =
     (if length b = length ys then Inr (map2 (\<lambda>c u. if c then v else u) b ys)
      else Inl IndexError)"

text \<open>\<^verbatim>\<open>a[b]\<close> where \<open>b\<close> is a boolean array of the length of \<open>a\<close>.\<close>

definition select :: "'a list \<Rightarrow> bool list \<Rightarrow> error + 'a list" where
  "select a b =
     (if length b = length a then Inr (map fst (filter snd (zip a b)))
      else Inl IndexError)"

text \<open>
  \<^verbatim>\<open>np.logical_and(a, b)\<close> for two square boolean matrices, with the broadcasting
  rule of \<open>add_square\<close>.
\<close>

definition and_square :: "bool list list \<Rightarrow> bool list list \<Rightarrow> error + bool list list" where
  "and_square a b =
     (if length a = length b then Inr (map2 (map2 (\<and>)) a b)
      else if length a = 1 then Inr (map (map (\<lambda>v. hd (hd a) \<and> v)) b)
      else if length b = 1 then Inr (map (map (\<lambda>v. v \<and> hd (hd b))) a)
      else Inl ValueError)"

text \<open>\<^verbatim>\<open>np.logical_and(m[:, None], m)\<close> for a one-dimensional \<open>m\<close> of truth values.\<close>

definition outer_and :: "bool list \<Rightarrow> bool list list" where
  "outer_and m = map (\<lambda>a. map (\<lambda>b. a \<and> b) m) m"

text \<open>\<^verbatim>\<open>astype(int)\<close> of a truth value.\<close>

definition as_int :: "bool \<Rightarrow> int" where
  "as_int b = (if b then 1 else 0)"

section \<open>np.random.shuffle\<close>

text \<open>
  \<^verbatim>\<open>np.random.shuffle\<close> permutes a list in place. Which permutation it draws depends on
  the state of the generator; here that state is the list of the permutations still to
  be drawn, each a list of positions. A draw that is not a permutation of the positions
  of the list (or a state with no draw left) leaves the list in its order.
\<close>

type_synonym rng = "nat list list"

definition is_perm :: "nat list \<Rightarrow> nat \<Rightarrow> bool" where
  "is_perm p n = (length p = n \<and> distinct p \<and> list_all (\<lambda>k. k < n) p)"

fun shuffle :: "rng \<Rightarrow> 'a list \<Rightarrow> 'a list \<times> rng" where
  "shuffle [] xs = (xs, [])"
| "shuffle (p # g) xs = (if is_perm p (length xs) then (map (\<lambda>k. xs ! k) p, g) else (xs, g))"

section \<open>Files and configuration\<close>

text \<open>
  The arrays of one \<^verbatim>\<open>.npz\<close> archive, by key: \<^verbatim>\<open>x\<close> (events \<open>\<times>\<close> particles
  \<open>\<times>\<close> features), \<^verbatim>\<open>y\<close>, \<^verbatim>\<open>p\<close>, \<^verbatim>\<open>q\<close> (events \<open>\<times>\<close> particles),
  \<^verbatim>\<open>N\<close> and the per-event scalars. The labels \<^verbatim>\<open>y\<close> are integers, so that
  \<^verbatim>\<open>astype(int)\<close> leaves them as they are. \<^verbatim>\<open>np.load\<close> is a function from file
  names to archives.
\<close>

record file_data =
  arr_x :: "real list list list"
  arr_y :: "int list list"
  arr_N :: "int list"
  arr_p :: "real list list"
  arr_q :: "real list list"
  arr_met :: "real list"
  arr_metphi :: "real list"
  arr_mjj :: "real list"
  arr_jpt0 :: "real list"
  arr_jm0 :: "real list"
  arr_puppimet :: "real list"
  arr_pfmet :: "real list"

text \<open>
  The attributes of \<^verbatim>\<open>config\<close> that the two classes read. \<open>min_met\<close> is
  \<open>None\<close> when the configuration has no such attribute.
\<close>

record config =
  num_max_files :: "int option"
  mask_charged :: bool
  num_max_particles :: "int option"
  dr_adj :: "real option"
  min_met :: "real option"

section \<open>PUDataset\<close>

record pu_dataset =
  pu_files :: "string list"
  pu_num_max_files :: "int option"
  pu_mask_charged :: bool
  pu_n_particles :: "int option"
  pu_dr_adj :: "real option"
  pu_min_met :: "real option"
  pu_len :: nat

text \<open>
  The body of the loop of \<^verbatim>\<open>_get_len\<close> for one file:
  \<^verbatim>\<open>
  N = data['N']
  if self.min_met is not None:
      genmet = data['met']
      evt_mask = genmet > self.min_met
  else:
      evt_mask = np .ones_like(N).astype(bool)
  n_tot += N[evt_mask].shape[0]
  \<close>
\<close>

definition PU_count :: "real option \<Rightarrow> file_data \<Rightarrow> error + nat" where
  "PU_count mm data =
     (let N = arr_N data;
          evt_mask = (case mm of
                        Some t \<Rightarrow> map (\<lambda>g. g > t) (arr_met data)
                      | None \<Rightarrow> map (\<lambda>_. True) N)
      in case select N evt_mask of
           Inl e \<Rightarrow> Inl e
         | Inr sel \<Rightarrow> Inr (length sel))"

fun PU_get_len_loop ::
  "(string \<Rightarrow> file_data) \<Rightarrow> real option \<Rightarrow> string list \<Rightarrow> nat \<Rightarrow> error + nat" where
  "PU_get_len_loop load mm [] n_tot = Inr n_tot"
| "PU_get_len_loop load mm (f # fs) n_tot =
     (case PU_count mm (load f) of
        Inl e \<Rightarrow> Inl e
      | Inr c \<Rightarrow> PU_get_len_loop load mm fs (n_tot + c))"

text \<open>
  \<^verbatim>\<open>_get_len\<close> shuffles \<^verbatim>\<open>self._files\<close> in place, then counts over
  \<^verbatim>\<open>self._files[:self.num_max_files]\<close>. It returns the count, the dataset with its
  files in the new order, and the generator's new state.
\<close>

definition PU_get_len ::
  "(string \<Rightarrow> file_data) \<Rightarrow> pu_dataset \<Rightarrow> rng \<Rightarrow> (error + nat) \<times> pu_dataset \<times> rng" where
  "PU_get_len load ds g =
     (case shuffle g (pu_files ds) of
        (fs, g') \<Rightarrow>
          (PU_get_len_loop load (pu_min_met ds) (py_upto (pu_num_max_files ds) fs) 0,
           ds\<lparr>pu_files := fs\<rparr>, g'))"

text \<open>\<^verbatim>\<open>__init__\<close>, from the files that the glob patterns matched.\<close>

definition PU_init ::
  "(string \<Rightarrow> file_data) \<Rightarrow> config \<Rightarrow> string list \<Rightarrow> rng \<Rightarrow> error + (pu_dataset \<times> rng)" where
  "PU_init load cfg globbed g =
     (let ds = \<lparr>pu_files = globbed,
                pu_num_max_files = num_max_files cfg,
                pu_mask_charged = mask_charged cfg,
                pu_n_particles = num_max_particles cfg,
                pu_dr_adj = dr_adj cfg,
                pu_min_met = min_met cfg,
                pu_len = 0\<rparr>
      in case PU_get_len load ds g of
           (Inl e, _, _) \<Rightarrow> Inl e
         | (Inr n, ds', g') \<Rightarrow> Inr (ds'\<lparr>pu_len := n\<rparr>, g'))"

text \<open>\<^verbatim>\<open>__len__\<close>.\<close>

definition PU_len :: "pu_dataset \<Rightarrow> nat" where
  "PU_len ds = pu_len ds"

text \<open>Sequencing of steps that can raise: the first exception ends the computation.\<close>

definition bind_err :: "error + 'a \<Rightarrow> ('a \<Rightarrow> error + 'b) \<Rightarrow> error + 'b" where
  "bind_err m f = (case m of Inl e \<Rightarrow> Inl e | Inr v \<Rightarrow> f v)"

text \<open>\<^verbatim>\<open>X.shape[1]\<close> of an array of events: the number of particle slots of an event.\<close>

definition shape1 :: "'a list list \<Rightarrow> nat" where
  "shape1 X = (case X of [] \<Rightarrow> 0 | x0 # _ \<Rightarrow> length x0)"

text \<open>
  The value under key \<^verbatim>\<open>adj_mask\<close>: two-dimensional when \<^verbatim>\<open>dr_adj\<close> is configured,
  the one-dimensional particle mask otherwise.
\<close>

datatype adj_mask = Adj1 "int list" | Adj2 "int list list"

text \<open>The dictionary yielded for one event, a field for each of its keys.\<close>

record pu_sample =
  s_x :: "real list list"
  s_y :: "int list"
  s_adj_mask :: adj_mask
  s_q :: "real list"
  s_p :: "real list"
  s_genmet :: real
  s_genmetphi :: real
  s_puppimet :: real
  s_pfmet :: real
  s_orig_y :: "int list"
  s_mask :: "int list"
  s_mjj :: real
  s_jpt0 :: real
  s_jm0 :: real

text \<open>
  The slices taken of a file's arrays before its events are read:
  \<^verbatim>\<open>
  X = X[:, :self.n_particles, :]
  Y = Y[:, :self.n_particles]
  P = P[:, :self.n_particles]
  Q = Q[:, :self.n_particles]
  \<close>
\<close>

definition PU_slice :: "pu_dataset \<Rightarrow> file_data \<Rightarrow> file_data" where
  "PU_slice ds data =
     data\<lparr>arr_x := map (py_upto (pu_n_particles ds)) (arr_x data),
          arr_y := map (py_upto (pu_n_particles ds)) (arr_y data),
          arr_p := map (py_upto (pu_n_particles ds)) (arr_p data),
          arr_q := map (py_upto (pu_n_particles ds)) (arr_q data)\<rparr>"

text \<open>
  The body of the inner loop of \<^verbatim>\<open>__iter__\<close>, on the sliced arrays, for event \<open>i\<close>:
  \<^verbatim>\<open>
  mask = (mask_base < N[i]).astype(int)
  x = X[i, :, :]
  if self.dr_adj is not None:
      adj = self.cone_adj(x[:, 1], x[:, 2], self.dr_adj)
      adj_mask = np.logical_and(adj, np.logical_and(mask[:, None], mask))
  else:
      adj_mask = mask
  adj_mask = adj_mask.astype(int)
  y = Y[i, :].astype(int)
  y[~mask] = -1
  orig_y = np.copy(y)
  if self.mask_charged:
      q_mask = (x[:, 5] != 0)
      y[q_mask] = -1
  to_yield = {'x': x, 'y': y, 'adj_mask': adj_mask, 'q': Q[i, :], 'p': P[i, :], ...}
  \<close>
  \<open>mask\<close> is an array of the integers 0 and 1, so \<^verbatim>\<open>~mask\<close> is the bitwise
  complement of each (\<open>-1\<close> and \<open>-2\<close>), and \<^verbatim>\<open>y[~mask] = -1\<close> is an assignment
  through an integer index array.
\<close>

definition PU_event :: "pu_dataset \<Rightarrow> file_data \<Rightarrow> nat \<Rightarrow> error + pu_sample" where
  "PU_event ds d i =
     (let mask_base = [0..<shape1 (arr_x d)] in
      bind_err (item (arr_N d) i) (\<lambda>n.
      let mask = map (\<lambda>j. as_int (int j < n)) mask_base in
      bind_err (item (arr_x d) i) (\<lambda>x.
      bind_err
        (case pu_dr_adj ds of
           Some cone \<Rightarrow>
             bind_err (column 1 x) (\<lambda>eta.
             bind_err (column 2 x) (\<lambda>phi.
             bind_err (cone_adj eta phi cone) (\<lambda>adj.
             bind_err (and_square (truth adj) (outer_and (map (\<lambda>m. m \<noteq> 0) mask))) (\<lambda>am.
             Inr (Adj2 (map (map as_int) am))))))
         | None \<Rightarrow> Inr (Adj1 mask)) (\<lambda>adj_mask.
      bind_err (item (arr_y d) i) (\<lambda>y0.
      bind_err (put_at (map NOT mask) (- 1) y0) (\<lambda>y1.
      let orig_y = y1 in
      bind_err
        (if pu_mask_charged ds
         then bind_err (column 5 x) (\<lambda>charge.
              let q_mask = map (\<lambda>v. v \<noteq> 0) charge in put_where q_mask (- 1) y1)
         else Inr y1) (\<lambda>y.
      bind_err (item (arr_q d) i) (\<lambda>q.
      bind_err (item (arr_p d) i) (\<lambda>p.
      bind_err (item (arr_met d) i) (\<lambda>genmet.
      bind_err (item (arr_metphi d) i) (\<lambda>genmetphi.
      bind_err (item (arr_puppimet d) i) (\<lambda>puppimet.
      bind_err (item (arr_pfmet d) i) (\<lambda>pfmet.
      bind_err (item (arr_mjj d) i) (\<lambda>mjj.
      bind_err (item (arr_jpt0 d) i) (\<lambda>jpt0.
      bind_err (item (arr_jm0 d) i) (\<lambda>jm0.
      Inr \<lparr>s_x = x, s_y = y, s_adj_mask = adj_mask, s_q = q, s_p = p,
           s_genmet = genmet, s_genmetphi = genmetphi, s_puppimet = puppimet,
           s_pfmet = pfmet, s_orig_y = orig_y, s_mask = mask, s_mjj = mjj,
           s_jpt0 = jpt0, s_jm0 = jm0\<rparr>))))))))))))))))"

text \<open>
  A generator's run is the list of what it yielded and the exception that ended it, if
  one did. \<open>PU_events\<close> is the inner loop \<^verbatim>\<open>for i in idx\<close>.
\<close>

fun PU_events :: "pu_dataset \<Rightarrow> file_data \<Rightarrow> nat list \<Rightarrow> pu_sample list \<times> error option" where
  "PU_events ds d [] = ([], None)"
| "PU_events ds d (i # idx) =
     (case PU_event ds d i of
        Inl e \<Rightarrow> ([], Some e)
      | Inr s \<Rightarrow> (case PU_events ds d idx of (ys, r) \<Rightarrow> (s # ys, r)))"

text \<open>
  The outer loop \<^verbatim>\<open>for f in self._files[:self.num_max_files]\<close>: load, slice,
  shuffle \<^verbatim>\<open>idx = np.arange(X.shape[0])\<close>, run the events.
\<close>

fun PU_files ::
  "(string \<Rightarrow> file_data) \<Rightarrow> pu_dataset \<Rightarrow> string list \<Rightarrow> rng \<Rightarrow>
   (pu_sample list \<times> error option) \<times> rng" where
  "PU_files load ds [] g = (([], None), g)"
| "PU_files load ds (f # fs) g =
     (let d = PU_slice ds (load f) in
      case shuffle g [0..<length (arr_x d)] of
        (idx, g1) \<Rightarrow>
          (case PU_events ds d idx of
             (ys, Some e) \<Rightarrow> ((ys, Some e), g1)
           | (ys, None) \<Rightarrow>
               (case PU_files load ds fs g1 of
                  ((zs, r), g2) \<Rightarrow> ((ys @ zs, r), g2))))"

text \<open>One pass of \<^verbatim>\<open>__iter__\<close>: it shuffles \<^verbatim>\<open>self._files\<close> in place first.\<close>

definition PU_iter ::
  "(string \<Rightarrow> file_data) \<Rightarrow> pu_dataset \<Rightarrow> rng \<Rightarrow>
   (pu_sample list \<times> error option) \<times> pu_dataset \<times> rng" where
  "PU_iter load ds g =
     (case shuffle g (pu_files ds) of
        (fs, g1) \<Rightarrow>
          (case PU_files load (ds\<lparr>pu_files := fs\<rparr>) (py_upto (pu_num_max_files ds) fs) g1 of
             (out, g2) \<Rightarrow> (out, ds\<lparr>pu_files := fs\<rparr>, g2)))"

text \<open>
  \<^verbatim>\<open>collate_fn\<close> of \<^verbatim>\<open>PUDataset\<close> works on arrays of any rank, so there an array is
  its shape and its elements in row-major order. \<^verbatim>\<open>np.stack(arrays, axis=0)\<close> needs
  at least one array and equal shapes; the result has one more leading axis.
\<close>

datatype 'a ndarray = NDArray (shape: "nat list") (elems: "'a list")

definition stack :: "'a ndarray list \<Rightarrow> error + 'a ndarray" where
  "stack arrays =
     (case arrays of
        [] \<Rightarrow> Inl ValueError
      | a # _ \<Rightarrow>
          if list_all (\<lambda>b. shape b = shape a) arrays
          then Inr (NDArray (length arrays # shape a) (concat (map elems arrays)))
          else Inl ValueError)"

text \<open>\<^verbatim>\<open>a[j]\<close>: the slice of \<open>a\<close> at position \<open>j\<close> of its leading axis.\<close>

definition slice0 :: "'a ndarray \<Rightarrow> nat \<Rightarrow> error + 'a ndarray" where
  "slice0 a j =
     (case shape a of
        [] \<Rightarrow> Inl IndexError
      | n # s \<Rightarrow>
          if j < n
          then Inr (NDArray s (take (prod_list s) (drop (j * prod_list s) (elems a))))
          else Inl IndexError)"

text \<open>A dictionary with string keys, in the order of its keys; \<^verbatim>\<open>s[k]\<close>.\<close>

type_synonym 'v dict = "(string \<times> 'v) list"

definition getitem :: "'v dict \<Rightarrow> string \<Rightarrow> error + 'v" where
  "getitem s k = (case map_of s k of None \<Rightarrow> Inl KeyError | Some v \<Rightarrow> Inr v)"

text \<open>A list comprehension whose body can raise: the first exception ends it.\<close>

fun comprehend :: "('a \<Rightarrow> error + 'b) \<Rightarrow> 'a list \<Rightarrow> error + 'b list" where
  "comprehend f [] = Inr []"
| "comprehend f (x # xs) =
     bind_err (f x) (\<lambda>y. bind_err (comprehend f xs) (\<lambda>ys. Inr (y # ys)))"

text \<open>
  \<^verbatim>\<open>
  def collate_fn(samples):
      keys = list(samples[0].keys())
      to_ret = {k:np.stack([s[k] for s in samples], axis=0) for k in keys}
      return to_ret
  \<close>
\<close>

definition PU_collate_fn :: "'a ndarray dict list \<Rightarrow> error + 'a ndarray dict" where
  "PU_collate_fn samples =
     bind_err (item samples 0) (\<lambda>s0.
     let keys = map fst s0 in
     comprehend (\<lambda>k.
        bind_err (comprehend (\<lambda>s. getitem s k) samples) (\<lambda>arrays.
        bind_err (stack arrays) (\<lambda>a. Inr (k, a)))) keys)"

section \<open>METDataset\<close>

record met_dataset =
  met_files :: "string list"
  met_mask_charged :: bool
  met_dr_adj :: "real option"
  met_len :: nat
  met_mean_met :: "real option"
  met_std_met :: real
  met_training_mode :: int

text \<open>
  \<^verbatim>\<open>_get_len\<close>:
  \<^verbatim>\<open>
  n_tot = 0
  for f in self._files:
      data = np.load(f)
      N = data['N']
      n_tot += N.shape[0]
  return n_tot
  \<close>
\<close>

fun MET_get_len_loop :: "(string \<Rightarrow> file_data) \<Rightarrow> string list \<Rightarrow> nat \<Rightarrow> nat" where
  "MET_get_len_loop load [] n_tot = n_tot"
| "MET_get_len_loop load (f # fs) n_tot =
     MET_get_len_loop load fs (n_tot + length (arr_N (load f)))"

definition MET_get_len :: "(string \<Rightarrow> file_data) \<Rightarrow> met_dataset \<Rightarrow> nat" where
  "MET_get_len load ds = MET_get_len_loop load (met_files ds) 0"

text \<open>
  \<^verbatim>\<open>__init__\<close>, from the sorted files that the glob pattern matched:
  \<^verbatim>\<open>self._files = sorted(glob(dataset_pattern))[:config.num_max_files]\<close>.
\<close>

definition MET_init ::
  "(string \<Rightarrow> file_data) \<Rightarrow> string list \<Rightarrow> config \<Rightarrow> real option \<Rightarrow> real \<Rightarrow> int \<Rightarrow> met_dataset" where
  "MET_init load sorted_glob cfg mean_met std_met training_mode =
     (let ds = \<lparr>met_files = py_upto (num_max_files cfg) sorted_glob,
                met_mask_charged = mask_charged cfg,
                met_dr_adj = dr_adj cfg,
                met_len = 0,
                met_mean_met = mean_met,
                met_std_met = std_met,
                met_training_mode = training_mode\<rparr>
      in ds\<lparr>met_len := MET_get_len load ds\<rparr>)"

text \<open>
  \<^verbatim>\<open>cone_adj\<close> of \<^verbatim>\<open>METDataset\<close>, which \<^verbatim>\<open>__iter__\<close> does not call: it
  compares the squared distance with zero, whatever the cone.
  \<^verbatim>\<open>
  def cone_adj(eta, phi, cone=0.4):
      deta2 = np.square(eta[:,np.newaxis] - eta)
      dphi2 = np.square(phi[:,np.newaxis] - phi)
      dr2 = deta2 + dphi2
      cone2 = cone ** 2
      # adj = (dr2 <= cone2)
      adj = dr2 == 0
      return adj
  \<close>
\<close>

definition MET_cone_adj :: "real list \<Rightarrow> real list \<Rightarrow> real \<Rightarrow> error + matrix" where
  "MET_cone_adj eta phi cone =
     (let deta2 = square (outer_diff eta);
          dphi2 = square (outer_diff phi)
      in bind_err (add_square deta2 dphi2) (\<lambda>dr2.
         let cone2 = cone ^ 2 in Inr (BoolM (map (map (\<lambda>d. d = 0)) dr2))))"

text \<open>
  The two scalings of the missing energy. Whether one undoes the other depends on how
  the arithmetic rounds, so they take the four operations as a parameter:
  \<^verbatim>\<open>
  def standardize_met(self, met):
      return (met - self.mean_met) / self.std_met

  def unstandardize_met(self, met):
      return (self.std_met * met) + self.mean_met
  \<close>
\<close>

record 'a arith =
  sub :: "'a \<Rightarrow> 'a \<Rightarrow> 'a"
  divide_by :: "'a \<Rightarrow> 'a \<Rightarrow> 'a"
  mul :: "'a \<Rightarrow> 'a \<Rightarrow> 'a"
  add :: "'a \<Rightarrow> 'a \<Rightarrow> 'a"

definition standardize_met :: "'a arith \<Rightarrow> 'a \<Rightarrow> 'a \<Rightarrow> 'a \<Rightarrow> 'a" where
  "standardize_met A mean_met std_met met = divide_by A (sub A met mean_met) std_met"


text \<open>Arithmetic without rounding, as everywhere else in this development.\<close>

definition exact :: "real arith" where
  "exact = \<lparr>sub = (-), divide_by = (/), mul = (*), add = (+)\<rparr>"






text \<open>
  \<^verbatim>\<open>
  def _compute_met(px, py):
      metx = np.sum(px, axis=-1)
      mety = np.sum(py, axis=-1)
      met = np.sqrt(np.power(metx, 2) + np.power(mety, 2))
      return met
  \<close>
  on two-dimensional arrays (events \<open>\<times>\<close> particles), as \<^verbatim>\<open>__iter__\<close> calls it. The sum
  of two one-dimensional arrays is elementwise when their lengths agree, broadcasts an
  array of one element, and raises \<^verbatim>\<open>ValueError\<close> otherwise.
\<close>

definition add_vec :: "real list \<Rightarrow> real list \<Rightarrow> error + real list" where
  "add_vec a b =
     (if length a = length b then Inr (map2 (+) a b)
      else if length a = 1 then Inr (map (\<lambda>v. hd a + v) b)
      else if length b = 1 then Inr (map (\<lambda>v. v + hd b) a)
      else Inl ValueError)"

definition compute_met :: "real list list \<Rightarrow> real list list \<Rightarrow> error + real list" where
  "compute_met px py =
     (let metx = map sum_list px;
          mety = map sum_list py
      in bind_err (add_vec (map (\<lambda>v. v ^ 2) metx) (map (\<lambda>v. v ^ 2) mety)) (\<lambda>s.
         Inr (map sqrt s)))"

text \<open>
  \<^verbatim>\<open>x[:, :, k]\<close> of a three-dimensional array, and the assignment
  \<^verbatim>\<open>x[:, :, k] = v\<close> of a two-dimensional \<open>v\<close> of that shape.
\<close>

definition feature :: "nat \<Rightarrow> 'a list list list \<Rightarrow> error + 'a list list" where
  "feature k x =
     (if list_all (list_all (\<lambda>row. k < length row)) x
      then Inr (map (map (\<lambda>row. row ! k)) x)
      else Inl IndexError)"

definition set_feature :: "nat \<Rightarrow> 'a list list \<Rightarrow> 'a list list list \<Rightarrow> error + 'a list list list" where
  "set_feature k v x =
     (if list_all (list_all (\<lambda>row. k < length row)) x
      then Inr (map2 (map2 (\<lambda>row u. row[k := u])) x v)
      else Inl IndexError)"

text \<open>
  \<^verbatim>\<open>
  def _transform_x(x):
      # starts with [pt, eta, phi, other stuff]
      # becomes     [px, eta, py, other stuff]
      pt, eta, phi = x[:,:,0], x[:,:,1], x[:,:,2]
      px = pt * np.cos(phi)
      py = pt * np.sin(phi)
      x[:,:,0] = px
      x[:,:,2] = py
      return x
  \<close>
  \<open>pt\<close> and \<open>phi\<close> are views of \<open>x\<close>, but \<open>px\<close> and \<open>py\<close> are new arrays, both
  computed before the first assignment.
\<close>

definition transform_x :: "real list list list \<Rightarrow> error + real list list list" where
  "transform_x x =
     bind_err (feature 0 x) (\<lambda>pt.
     bind_err (feature 1 x) (\<lambda>eta.
     bind_err (feature 2 x) (\<lambda>phi.
     let px = map2 (map2 (\<lambda>a b. a * cos b)) pt phi;
         py = map2 (map2 (\<lambda>a b. a * sin b)) pt phi
     in bind_err (set_feature 0 px x) (\<lambda>x1. set_feature 2 py x1))))"

text \<open>
  The body of the inner loop of \<^verbatim>\<open>__iter__\<close>, for event \<open>i\<close>, on the transformed
  and sliced \<open>X\<close> and the scaled missing energies:
  \<^verbatim>\<open>
  mask = (mask_base < N[i])
  x = X[i, :, :]
  if self.dr_adj is not None:
      adj = np.eye(x.shape[0])
      adj_mask = np.logical_and(adj, np.logical_and(mask[:, np.newaxis], mask))
  else:
      adj_mask = mask
  adj_mask = adj_mask.astype(int)
  if self.training_mode in {0, 1}:
      to_yield = (x, adj_mask, calcmet[i], pfmet[i])
  else:
      to_yield = (x, adj_mask, genmet[i], pfmet[i])
  \<close>
\<close>

type_synonym met_sample = "real list list \<times> adj_mask \<times> real \<times> real"

definition MET_event ::
  "met_dataset \<Rightarrow> real list list list \<Rightarrow> int list \<Rightarrow> real list \<Rightarrow> real list \<Rightarrow> real list \<Rightarrow>
   nat \<Rightarrow> error + met_sample" where
  "MET_event ds X N genmet calcmet pfmet i =
     (let mask_base = [0..<shape1 X] in
      bind_err (item N i) (\<lambda>n.
      let mask = map (\<lambda>j. int j < n) mask_base in
      bind_err (item X i) (\<lambda>x.
      bind_err
        (case met_dr_adj ds of
           Some _ \<Rightarrow>
             let adj = FloatM (eye (length x)) in
             bind_err (and_square (truth adj) (outer_and mask)) (\<lambda>am.
             Inr (Adj2 (map (map as_int) am)))
         | None \<Rightarrow> Inr (Adj1 (map as_int mask))) (\<lambda>adj_mask.
      if met_training_mode ds \<in> {0, 1}
      then bind_err (item calcmet i) (\<lambda>c.
           bind_err (item pfmet i) (\<lambda>pf. Inr (x, adj_mask, c, pf)))
      else bind_err (item genmet i) (\<lambda>gm.
           bind_err (item pfmet i) (\<lambda>pf. Inr (x, adj_mask, gm, pf)))))))"

fun MET_events ::
  "met_dataset \<Rightarrow> real list list list \<Rightarrow> int list \<Rightarrow> real list \<Rightarrow> real list \<Rightarrow> real list \<Rightarrow>
   nat list \<Rightarrow> met_sample list \<times> error option" where
  "MET_events ds X N genmet calcmet pfmet [] = ([], None)"
| "MET_events ds X N genmet calcmet pfmet (i # idx) =
     (case MET_event ds X N genmet calcmet pfmet i of
        Inl e \<Rightarrow> ([], Some e)
      | Inr s \<Rightarrow>
          (case MET_events ds X N genmet calcmet pfmet idx of (ys, r) \<Rightarrow> (s # ys, r)))"

text \<open>
  One file of \<^verbatim>\<open>__iter__\<close>: transform \<open>X\<close>, slice it to 50 or 200 particles, compute
  \<open>calcmet\<close>, shuffle the event indices, scale the missing energies when
  \<^verbatim>\<open>mean_met\<close> is not \<^verbatim>\<open>None\<close>, run the events.
\<close>

definition MET_file ::
  "met_dataset \<Rightarrow> file_data \<Rightarrow> rng \<Rightarrow> (met_sample list \<times> error option) \<times> rng" where
  "MET_file ds d g =
     (case transform_x (arr_x d) of
        Inl e \<Rightarrow> (([], Some e), g)
      | Inr X0 \<Rightarrow>
          let X = (if met_training_mode ds = 0 then map (py_upto (Some 50)) X0
                   else if met_training_mode ds = 1 then map (py_upto (Some 200)) X0
                   else map (py_upto (Some 200)) X0)
          in case bind_err (feature 0 X) (\<lambda>px. bind_err (feature 2 X) (\<lambda>py. compute_met px py)) of
               Inl e \<Rightarrow> (([], Some e), g)
             | Inr calcmet0 \<Rightarrow>
                 (case shuffle g [0..<length X] of
                    (idx, g1) \<Rightarrow>
                      let scale = (case met_mean_met ds of
                                     Some m \<Rightarrow> map (standardize_met exact m (met_std_met ds))
                                   | None \<Rightarrow> (\<lambda>v. v));
                          genmet = scale (arr_met d);
                          calcmet = scale calcmet0;
                          pfmet = scale (arr_pfmet d)
                      in (MET_events ds X (arr_N d) genmet calcmet pfmet idx, g1)))"

fun MET_files ::
  "(string \<Rightarrow> file_data) \<Rightarrow> met_dataset \<Rightarrow> string list \<Rightarrow> rng \<Rightarrow>
   (met_sample list \<times> error option) \<times> rng" where
  "MET_files load ds [] g = (([], None), g)"
| "MET_files load ds (f # fs) g =
     (case MET_file ds (load f) g of
        ((ys, Some e), g1) \<Rightarrow> ((ys, Some e), g1)
      | ((ys, None), g1) \<Rightarrow>
          (case MET_files load ds fs g1 of ((zs, r), g2) \<Rightarrow> ((ys @ zs, r), g2)))"

definition MET_iter ::
  "(string \<Rightarrow> file_data) \<Rightarrow> met_dataset \<Rightarrow> rng \<Rightarrow>
   (met_sample list \<times> error option) \<times> met_dataset \<times> rng" where
  "MET_iter load ds g =
     (case shuffle g (met_files ds) of
        (fs, g1) \<Rightarrow>
          (case MET_files load (ds\<lparr>met_files := fs\<rparr>) fs g1 of
             (out, g2) \<Rightarrow> (out, ds\<lparr>met_files := fs\<rparr>, g2)))"

text \<open>
  \<^verbatim>\<open>
  def collate_fn(samples):
      n_fts = len(samples[0])
      to_ret = [np.stack([s[i] for s in samples], axis=0) for i in range(n_fts)]
      return to_ret
  \<close>
  A sample is a tuple, here the list of its elements.
\<close>

definition MET_collate_fn :: "'a ndarray list list \<Rightarrow> error + 'a ndarray list" where
  "MET_collate_fn samples =
     bind_err (item samples 0) (\<lambda>s0.
     let n_fts = length s0 in
     comprehend (\<lambda>i.
        bind_err (comprehend (\<lambda>s. item s i) samples) (\<lambda>arrays. stack arrays)) [0..<n_fts])"

section \<open>Shapes and the adjacency property\<close>



section \<open>Example inputs\<close>

text \<open>
  One archive of two events with four particle slots and six features each. The first
  event has one real particle, which is charged; the second has four, all neutral.
\<close>

definition ex_file :: file_data where
  "ex_file =
     \<lparr>arr_x = [[[1, 0, 0, 0, 0, 1], [1, 0, 0, 0, 0, 0], [1, 0, 0, 0, 0, 0], [1, 0, 0, 0, 0, 0]],
               [[1, 0, 0, 0, 0, 0], [1, 0, 0, 0, 0, 0], [1, 0, 0, 0, 0, 0], [1, 0, 0, 0, 0, 0]]],
      arr_y = [[1, 0, 1, 0], [1, 1, 1, 1]],
      arr_N = [1, 4],
      arr_p = [[0, 0, 0, 0], [0, 0, 0, 0]],
      arr_q = [[0, 0, 0, 0], [0, 0, 0, 0]],
      arr_met = [0, 10],
      arr_metphi = [0, 0],
      arr_mjj = [0, 0],
      arr_jpt0 = [0, 0],
      arr_jm0 = [0, 0],
      arr_puppimet = [0, 0],
      arr_pfmet = [0, 0]\<rparr>"

definition ex_config :: config where
  "ex_config =
     \<lparr>num_max_files = None, mask_charged = False, num_max_particles = Some 4,
      dr_adj = None, min_met = Some 5\<rparr>"

text \<open>The dataset that \<open>PU_init\<close> builds from \<open>ex_config\<close> and the one file.\<close>

definition ex_dataset :: pu_dataset where
  "ex_dataset =
     \<lparr>pu_files = [''a''], pu_num_max_files = None, pu_mask_charged = False,
      pu_n_particles = Some 4, pu_dr_adj = None, pu_min_met = Some 5, pu_len = 1\<rparr>"

definition ex_dataset_charged :: pu_dataset where
  "ex_dataset_charged = ex_dataset\<lparr>pu_mask_charged := True\<rparr>"

definition ex_sample_charged :: pu_sample where
  "ex_sample_charged =
     \<lparr>s_x = [[1, 0, 0, 0, 0, 1], [1, 0, 0, 0, 0, 0], [1, 0, 0, 0, 0, 0], [1, 0, 0, 0, 0, 0]],
      s_y = [- 1, 0, - 1, - 1], s_adj_mask = Adj1 [1, 0, 0, 0],
      s_q = [0, 0, 0, 0], s_p = [0, 0, 0, 0], s_genmet = 0, s_genmetphi = 0,
      s_puppimet = 0, s_pfmet = 0, s_orig_y = [1, 0, - 1, - 1], s_mask = [1, 0, 0, 0],
      s_mjj = 0, s_jpt0 = 0, s_jm0 = 0\<rparr>"



text \<open>An array has as many elements as its shape says.\<close>

definition well_formed :: "'a ndarray \<Rightarrow> bool" where
  "well_formed a = (length (elems a) = prod_list (shape a))"

text \<open>
  The samples of a batch share their keys (tuple positions), and under each key
  (position) their arrays share a shape.
\<close>

definition same_keys_and_shapes :: "'a ndarray dict list \<Rightarrow> bool" where
  "same_keys_and_shapes samples =
     (\<forall>s \<in> set samples.
        set (map fst s) = set (map fst (hd samples)) \<and>
        (\<forall>k \<in> set (map fst s). \<exists>a b. map_of s k = Some a \<and> map_of (hd samples) k = Some b \<and>
            well_formed a \<and> shape a = shape b))"

definition same_arity_and_shapes :: "'a ndarray list list \<Rightarrow> bool" where
  "same_arity_and_shapes samples =
     (\<forall>s \<in> set samples.
        length s = length (hd samples) \<and>
        (\<forall>i < length s. well_formed (s ! i) \<and> shape (s ! i) = shape (hd samples ! i)))"

definition ex_samples :: "int ndarray dict list" where
  "ex_samples =
     [[(''y'', NDArray [2] [1, 0]), (''mjj'', NDArray [] [5])],
      [(''y'', NDArray [2] [2, 3]), (''mjj'', NDArray [] [6])]]"

definition ex_tuples :: "int ndarray list list" where
  "ex_tuples =
     [[NDArray [2] [1, 0], NDArray [] [5]],
      [NDArray [2] [2, 3], NDArray [] [6]]]"

section \<open>Properties of cone\_adj\<close>

lemma map_upt_nth_eq: "map (\<lambda>i. f (xs ! i)) [0..<length xs] = map f xs"
  by (rule nth_equalityI) simp_all









section \<open>Properties of one event of PUDataset\<close>

lemma bind_err_InrE:
  assumes "bind_err m f = Inr r"
  obtains v where "m = Inr v" and "f v = Inr r"
  using assms by (cases m) (simp_all add: bind_err_def)

lemma put_where_nth:
  assumes "put_where b v ys = Inr zs"
  shows "length zs = length ys \<and> length b = length ys \<and>
         (\<forall>k < length ys. zs ! k = (if b ! k then v else ys ! k))"
  using assms by (auto simp: put_where_def split: if_splits)

lemma column_nth:
  assumes "column c x = Inr col"
  shows "length col = length x \<and> (\<forall>k < length x. col ! k = x ! k ! c)"
  using assms by (auto simp: column_def split: if_splits)

text \<open>What a yielded sample says about the steps that produced its labels.\<close>

lemma PU_event_labels:
  assumes "PU_event ds d i = Inr s"
  shows "\<exists>n x y0.
           item (arr_N d) i = Inr n \<and> item (arr_x d) i = Inr x \<and> item (arr_y d) i = Inr y0 \<and>
           s_x s = x \<and>
           s_mask s = map (\<lambda>j. as_int (int j < n)) [0..<shape1 (arr_x d)] \<and>
           put_at (map NOT (s_mask s)) (- 1) y0 = Inr (s_orig_y s) \<and>
           (if pu_mask_charged ds
            then \<exists>charge. column 5 x = Inr charge \<and>
                   put_where (map (\<lambda>v. v \<noteq> 0) charge) (- 1) (s_orig_y s) = Inr (s_y s)
            else s_y s = s_orig_y s)"
  using assms unfolding PU_event_def Let_def
  by (elim bind_err_InrE) (auto split: if_splits elim!: bind_err_InrE)

text \<open>
  C9: in every sample that \<open>PU_event\<close> yields, \<open>y\<close> and \<open>orig_y\<close> agree wherever the
  charge feature \<open>x[:, 5]\<close> is zero; they differ only at a charged position, and only
  when \<open>mask_charged\<close> is set.
\<close>

theorem PU_event_y_orig_y:
  "PU_event ds d i = Inr s \<Longrightarrow>
     length (s_y s) = length (s_orig_y s) \<and>
     (\<forall>k < length (s_y s).
        (s_x s ! k ! 5 = 0 \<longrightarrow> s_y s ! k = s_orig_y s ! k) \<and>
        (s_y s ! k \<noteq> s_orig_y s ! k \<longrightarrow> pu_mask_charged ds \<and> s_x s ! k ! 5 \<noteq> 0))"
proof -
  assume ev: "PU_event ds d i = Inr s"
  from PU_event_labels [OF ev] obtain n x y0 where
    x: "s_x s = x" and
    ch: "if pu_mask_charged ds
         then \<exists>charge. column 5 x = Inr charge \<and>
                put_where (map (\<lambda>v. v \<noteq> 0) charge) (- 1) (s_orig_y s) = Inr (s_y s)
         else s_y s = s_orig_y s"
    by blast
  show ?thesis
  proof (cases "pu_mask_charged ds")
    case False
    with ch show ?thesis by simp
  next
    case True
    with ch obtain charge where c: "column 5 x = Inr charge"
      and p: "put_where (map (\<lambda>v. v \<noteq> 0) charge) (- 1) (s_orig_y s) = Inr (s_y s)"
      by auto
    note pn = put_where_nth [OF p] and cn = column_nth [OF c]
    from pn cn have len: "length (s_y s) = length (s_orig_y s)" "length x = length (s_orig_y s)"
      by simp_all
    show ?thesis
    proof (intro conjI allI impI)
      show "length (s_y s) = length (s_orig_y s)" by (rule len)
    next
      fix k assume "k < length (s_y s)" and "s_x s ! k ! 5 = 0"
      with pn cn len x show "s_y s ! k = s_orig_y s ! k" by simp
    next
      fix k assume "k < length (s_y s)" and "s_y s ! k \<noteq> s_orig_y s ! k"
      show "pu_mask_charged ds" by (rule True)
    next
      fix k assume "k < length (s_y s)" and "s_y s ! k \<noteq> s_orig_y s ! k"
      with pn cn len x show "s_x s ! k ! 5 \<noteq> 0" by (auto split: if_splits)
    qed
  qed
qed

lemma ex_sample_charged_yielded:
  "PU_event ex_dataset_charged (PU_slice ex_dataset_charged ex_file) 0 = Inr ex_sample_charged"
  by code_simp

theorem PU_event_y_orig_y_witness:
  "PU_event ex_dataset_charged (PU_slice ex_dataset_charged ex_file) 0 = Inr ex_sample_charged \<and>
   s_y ex_sample_charged = [- 1, 0, - 1, - 1] \<and>
   s_orig_y ex_sample_charged = [1, 0, - 1, - 1] \<and>
   pu_mask_charged ex_dataset_charged \<and>
   s_x ex_sample_charged ! 0 ! 5 \<noteq> 0"
  using PU_event_y_orig_y [OF ex_sample_charged_yielded] ex_sample_charged_yielded
  by (simp add: ex_sample_charged_def ex_dataset_charged_def)

section \<open>The adjacency mask of a yielded sample\<close>



lemma item_Inr: "item xs i = Inr v \<Longrightarrow> i < length xs \<and> v = xs ! i"
  by (auto simp: item_def split: if_splits)










section \<open>The padding step of PUDataset\<close>

lemma put_at_last_two:
  assumes "put_at ks v ys = Inr zs" and "\<forall>k \<in> set ks. k = - 1 \<or> k = - 2"
  shows "length zs = length ys \<and> (\<forall>j. j + 2 < length ys \<longrightarrow> zs ! j = ys ! j)"
  using assms
proof (induction ks arbitrary: ys)
  case Nil
  then show ?case by simp
next
  case (Cons k ks)
  from Cons.prems(1) obtain j where j: "wrap_index (length ys) k = Inr j"
    and rest: "put_at ks v (ys[j := v]) = Inr zs"
    by (cases "wrap_index (length ys) k") simp_all
  from Cons.prems(2) have k: "k = - 1 \<or> k = - 2" by simp
  with j have far: "j + 2 \<ge> length ys"
    by (auto simp: wrap_index_def split: if_splits)
  from Cons.IH [OF rest] Cons.prems(2)
  have "length zs = length ys" and "\<forall>i. i + 2 < length ys \<longrightarrow> zs ! i = ys[j := v] ! i"
    by simp_all
  with far show ?case by (auto simp: nth_list_update)
qed

text \<open>
  Whatever the particle count, the padding step leaves the loaded label at every
  position but the last two.
\<close>

lemma PU_event_padding_step:
  assumes "PU_event ds d i = Inr s"
  shows "length (s_orig_y s) = length (arr_y d ! i) \<and>
         (\<forall>j. j + 2 < length (arr_y d ! i) \<longrightarrow> s_orig_y s ! j = arr_y d ! i ! j)"
proof -
  from PU_event_labels [OF assms] obtain n y0 where
    y0: "item (arr_y d) i = Inr y0" and
    m: "s_mask s = map (\<lambda>j. as_int (int j < n)) [0..<shape1 (arr_x d)]" and
    p: "put_at (map NOT (s_mask s)) (- 1) y0 = Inr (s_orig_y s)"
    by blast
  have "\<forall>k \<in> set (map NOT (s_mask s)). k = - 1 \<or> k = - 2"
    unfolding m by (auto simp: as_int_def)
  from put_at_last_two [OF p this] item_Inr [OF y0] show ?thesis by simp
qed

text \<open>
  C2, on the example file with \<open>mask_charged\<close> off. Event 0 has \<open>N = 1\<close> and labels
  \<open>[1, 0, 1, 0]\<close>: index 1 is padded, yet \<open>y\<close> keeps the label 0 there. Event 1 has
  \<open>N = 4\<close> and labels \<open>[1, 1, 1, 1]\<close>: index 2 is a real, neutral particle, yet \<open>y\<close>
  is \<open>-1\<close> there. The assignment \<^verbatim>\<open>y[~mask] = -1\<close> writes only the last position
  (when some slot is padded) and the one before it (when some slot is real).
\<close>

theorem PU_event_label_masking_example:
  "arr_N ex_file = [1, 4] \<and>
   arr_y ex_file = [[1, 0, 1, 0], [1, 1, 1, 1]] \<and>
   map s_y (fst (PU_events ex_dataset (PU_slice ex_dataset ex_file) [0, 1]))
     = [[1, 0, - 1, - 1], [1, 1, - 1, 1]] \<and>
   snd (PU_events ex_dataset (PU_slice ex_dataset ex_file) [0, 1]) = None"
  by code_simp

section \<open>What a pass yields\<close>

text \<open>
  A shuffle permutes; every sample that a pass of \<open>PU_iter\<close> yields is the result of
  \<open>PU_event\<close> on the sliced arrays of one of the dataset's files, and every sample of
  \<open>MET_file\<close> is the result of \<open>MET_event\<close>.
\<close>

lemma is_perm_mset:
  assumes "is_perm p n"
  shows "mset p = mset [0..<n]"
proof -
  from assms have l: "length p = n" and d: "distinct p" and b: "set p \<subseteq> {0..<n}"
    by (auto simp: is_perm_def list_all_iff)
  from d l have "card (set p) = n" by (simp add: distinct_card)
  with b have "set p = {0..<n}"
    by (intro card_subset_eq) simp_all
  then have "set p = set [0..<n]" by simp
  with d show ?thesis
    by (metis distinct_upt set_eq_iff_mset_eq_distinct)
qed

lemma shuffle_mset: "mset (fst (shuffle g xs)) = mset xs"
proof (cases g)
  case Nil
  then show ?thesis by simp
next
  case (Cons p g')
  show ?thesis
  proof (cases "is_perm p (length xs)")
    case False
    with Cons show ?thesis by simp
  next
    case True
    have "mset (map (\<lambda>k. xs ! k) p) = image_mset (\<lambda>k. xs ! k) (mset p)" by simp
    also have "\<dots> = image_mset (\<lambda>k. xs ! k) (mset [0..<length xs])"
      by (simp only: is_perm_mset [OF True])
    also have "\<dots> = mset (map (\<lambda>k. xs ! k) [0..<length xs])" by simp
    also have "\<dots> = mset xs" by (simp add: map_nth)
    finally show ?thesis using Cons True by simp
  qed
qed

lemma shuffle_set: "set (fst (shuffle g xs)) = set xs"
  using shuffle_mset [of g xs] by (metis set_mset_mset)

lemma shuffle_length: "length (fst (shuffle g xs)) = length xs"
  using shuffle_mset [of g xs] by (metis size_mset)

lemma PU_events_from:
  "s \<in> set (fst (PU_events ds d idx)) \<Longrightarrow> \<exists>i \<in> set idx. PU_event ds d i = Inr s"
proof (induction idx)
  case Nil
  then show ?case by simp
next
  case (Cons i idx)
  then show ?case
    by (cases "PU_event ds d i"; cases "PU_events ds d idx") auto
qed

lemma PU_events_complete:
  "snd (PU_events ds d idx) = None \<Longrightarrow> length (fst (PU_events ds d idx)) = length idx"
proof (induction idx)
  case Nil
  then show ?case by simp
next
  case (Cons i idx)
  then show ?case
    by (cases "PU_event ds d i"; cases "PU_events ds d idx") auto
qed

lemma PU_files_from:
  "s \<in> set (fst (fst (PU_files load ds fs g))) \<Longrightarrow>
     \<exists>f \<in> set fs. \<exists>i < length (arr_x (load f)). PU_event ds (PU_slice ds (load f)) i = Inr s"
proof (induction fs arbitrary: g)
  case Nil
  then show ?case by simp
next
  case (Cons f fs)
  let ?d = "PU_slice ds (load f)"
  obtain idx g1 where sh: "shuffle g [0..<length (arr_x ?d)] = (idx, g1)" by force
  then have idx: "set idx = {0..<length (arr_x (load f))}"
    using shuffle_set [of g "[0..<length (arr_x ?d)]"] by (simp add: PU_slice_def)
  obtain ys r where ev: "PU_events ds ?d idx = (ys, r)" by force
  show ?case
  proof (cases "s \<in> set ys")
    case True
    with PU_events_from [of s ds ?d idx] ev idx show ?thesis by auto
  next
    case False
    obtain zs r2 g2 where rest: "PU_files load ds fs g1 = ((zs, r2), g2)"
      by (metis surj_pair)
    from Cons.prems False sh ev rest have "s \<in> set zs"
      by (cases r) (auto simp: Let_def)
    with Cons.IH [of g1] rest show ?thesis by auto
  qed
qed

lemma PU_files_complete:
  "snd (fst (PU_files load ds fs g)) = None \<Longrightarrow>
     length (fst (fst (PU_files load ds fs g))) = (\<Sum>f \<leftarrow> fs. length (arr_x (load f)))"
proof (induction fs arbitrary: g)
  case Nil
  then show ?case by simp
next
  case (Cons f fs)
  let ?d = "PU_slice ds (load f)"
  obtain idx g1 where sh: "shuffle g [0..<length (arr_x ?d)] = (idx, g1)" by force
  then have idx: "length idx = length (arr_x (load f))"
    using shuffle_length [of g "[0..<length (arr_x ?d)]"] by (simp add: PU_slice_def)
  obtain ys r where ev: "PU_events ds ?d idx = (ys, r)" by force
  obtain zs r2 g2 where rest: "PU_files load ds fs g1 = ((zs, r2), g2)"
    by (metis surj_pair)
  from Cons.prems sh ev rest have r: "r = None" and r2: "r2 = None"
    by (cases r; simp add: Let_def)+
  from PU_events_complete [of ds ?d idx] ev r idx have "length ys = length (arr_x (load f))"
    by simp
  moreover from Cons.IH [of g1] rest r2 have "length zs = (\<Sum>f \<leftarrow> fs. length (arr_x (load f)))"
    by simp
  ultimately show ?case using sh ev rest r by (simp add: Let_def)
qed

lemma PU_event_files_irrelevant [simp]: "PU_event (ds\<lparr>pu_files := fs\<rparr>) d i = PU_event ds d i"
  by (simp add: PU_event_def)

lemma PU_slice_files_irrelevant [simp]: "PU_slice (ds\<lparr>pu_files := fs\<rparr>) d = PU_slice ds d"
  by (simp add: PU_slice_def)

lemma set_py_upto: "set (py_upto k xs) \<subseteq> set xs"
  by (auto simp: py_upto_def split: option.splits dest: in_set_takeD)

lemma PU_iter_from:
  assumes "s \<in> set (fst (fst (PU_iter load ds g)))"
  shows "\<exists>f \<in> set (pu_files ds). \<exists>i < length (arr_x (load f)).
           PU_event ds (PU_slice ds (load f)) i = Inr s"
proof -
  obtain fs g1 where sh: "shuffle g (pu_files ds) = (fs, g1)" by force
  then have fs: "set fs = set (pu_files ds)" using shuffle_set [of g "pu_files ds"] by simp
  let ?ds = "ds\<lparr>pu_files := fs\<rparr>"
  obtain out g2 where o: "PU_files load ?ds (py_upto (pu_num_max_files ds) fs) g1 = (out, g2)"
    by (cases "PU_files load ?ds (py_upto (pu_num_max_files ds) fs) g1")
  from assms sh o have "s \<in> set (fst (fst (PU_files load ?ds (py_upto (pu_num_max_files ds) fs) g1)))"
    by (simp add: PU_iter_def)
  from PU_files_from [OF this] set_py_upto [of "pu_num_max_files ds" fs] fs
  show ?thesis by auto
qed

lemma PU_count_no_threshold: "PU_count None data = Inr (length (arr_N data))"
proof -
  have "filter snd (zip N (map (\<lambda>_. True) N)) = zip N (map (\<lambda>_. True) N)" for N :: "int list"
    by (rule filter_True) (auto simp: set_zip)
  then show ?thesis by (simp add: PU_count_def select_def Let_def)
qed

lemma PU_get_len_loop_no_threshold:
  "PU_get_len_loop load None fs n = Inr (n + (\<Sum>f \<leftarrow> fs. length (arr_N (load f))))"
  by (induction fs arbitrary: n) (simp_all add: PU_count_no_threshold)

lemma sum_list_shuffle: "(\<Sum>f \<leftarrow> fst (shuffle g fs). h f) = (\<Sum>f \<leftarrow> fs. (h f :: nat))"
proof -
  have "(\<Sum>f \<leftarrow> fst (shuffle g fs). h f) = sum_mset (image_mset h (mset (fst (shuffle g fs))))"
    by (metis mset_map sum_mset_sum_list)
  also have "\<dots> = sum_mset (image_mset h (mset fs))" by (simp only: shuffle_mset)
  also have "\<dots> = (\<Sum>f \<leftarrow> fs. h f)" by (metis mset_map sum_mset_sum_list)
  finally show ?thesis .
qed

text \<open>
  Without a threshold, with every file taken and \<open>N\<close> as long as \<open>X\<close> in every file,
  a pass that no exception ends yields \<open>__len__\<close> samples.
\<close>

lemma PU_len_matches_pass_without_threshold:
  assumes init: "PU_init load cfg globbed g = Inr (ds, g')"
    and no_threshold: "min_met cfg = None"
    and all_files: "num_max_files cfg = None"
    and shapes: "\<forall>f \<in> set globbed. length (arr_N (load f)) = length (arr_x (load f))"
    and complete: "snd (fst (PU_iter load ds g'')) = None"
  shows "length (fst (fst (PU_iter load ds g''))) = PU_len ds"
proof -
  let ?fs = "fst (shuffle g globbed)"
  have h: "(\<Sum>f \<leftarrow> fs. length (arr_N (load f))) = (\<Sum>f \<leftarrow> fs. length (arr_x (load f)))"
    if "set fs \<subseteq> set globbed" for fs
    using that shapes by (intro arg_cong [of _ _ sum_list] map_cong) auto
  from init no_threshold all_files
  have ds: "pu_files ds = ?fs" "pu_num_max_files ds = None"
    and len: "pu_len ds = (\<Sum>f \<leftarrow> ?fs. length (arr_N (load f)))"
    by (auto simp: PU_init_def PU_get_len_def Let_def py_upto_def PU_get_len_loop_no_threshold
          split: prod.splits sum.splits)
  obtain fs2 g1 where sh: "shuffle g'' (pu_files ds) = (fs2, g1)"
    by (cases "shuffle g'' (pu_files ds)")
  then have fs2: "fs2 = fst (shuffle g'' (pu_files ds))" by simp
  let ?run = "PU_files load (ds\<lparr>pu_files := fs2\<rparr>) fs2 g1"
  have it: "fst (PU_iter load ds g'') = fst ?run"
    by (simp add: PU_iter_def sh ds(2) py_upto_def split: prod.splits)
  with complete have "snd (fst ?run) = None" by simp
  from PU_files_complete [OF this] it
  have "length (fst (fst (PU_iter load ds g''))) = (\<Sum>f \<leftarrow> fs2. length (arr_x (load f)))"
    by simp
  also have "\<dots> = (\<Sum>f \<leftarrow> pu_files ds. length (arr_x (load f)))"
    unfolding fs2 by (rule sum_list_shuffle)
  also have "\<dots> = (\<Sum>f \<leftarrow> ?fs. length (arr_N (load f)))"
    unfolding ds(1) by (rule h [symmetric]) (simp add: shuffle_set)
  finally show ?thesis by (simp add: PU_len_def len)
qed

lemma MET_events_from:
  "s \<in> set (fst (MET_events ds X N genmet calcmet pfmet idx)) \<Longrightarrow>
     \<exists>i \<in> set idx. MET_event ds X N genmet calcmet pfmet i = Inr s"
proof (induction idx)
  case Nil
  then show ?case by simp
next
  case (Cons i idx)
  then show ?case
    by (cases "MET_event ds X N genmet calcmet pfmet i";
        cases "MET_events ds X N genmet calcmet pfmet idx") auto
qed

lemma MET_file_from:
  assumes "s \<in> set (fst (fst (MET_file ds d g)))"
  shows "\<exists>X0 genmet calcmet pfmet i.
           transform_x (arr_x d) = Inr X0 \<and>
           MET_event ds (map (py_upto (Some (if met_training_mode ds = 0 then 50 else 200))) X0)
             (arr_N d) genmet calcmet pfmet i = Inr s"
  using assms unfolding MET_file_def Let_def
  by (auto split: sum.splits prod.splits if_splits dest!: MET_events_from)

section \<open>Length and one pass of PUDataset\<close>

text \<open>
  C1, on the example file with \<open>min_met = 5\<close>: the constructor counts the one event
  whose missing energy exceeds 5, so \<open>__len__\<close> is 1, and a full pass of \<open>__iter__\<close>
  over the dataset it built yields both events.
\<close>

theorem PU_len_differs_from_pass:
  "PU_init (\<lambda>_. ex_file) ex_config [''a''] [] = Inr (ex_dataset, []) \<and>
   PU_len ex_dataset = 1 \<and>
   length (fst (fst (PU_iter (\<lambda>_. ex_file) ex_dataset []))) = 2 \<and>
   snd (fst (PU_iter (\<lambda>_. ex_file) ex_dataset [])) = None"
  by code_simp

section \<open>METDataset: coordinates and missing energy\<close>













section \<open>collate\_fn\<close>

lemma take_drop_concat:
  assumes "\<forall>x \<in> set xss. length x = n" and "j < length xss"
  shows "take n (drop (j * n) (concat xss)) = xss ! j"
  using assms
proof (induction xss arbitrary: j)
  case Nil
  then show ?case by simp
next
  case (Cons x xss)
  show ?case
  proof (cases j)
    case 0
    with Cons.prems show ?thesis by simp
  next
    case (Suc j')
    with Cons.prems have "take n (drop (j' * n) (concat xss)) = xss ! j'"
      by (intro Cons.IH) simp_all
    with Suc Cons.prems show ?thesis by simp
  qed
qed

lemma stack_slices:
  assumes ne: "arrays \<noteq> []"
    and sh: "\<forall>b \<in> set arrays. shape b = s \<and> well_formed b"
  shows "\<exists>a. stack arrays = Inr a \<and> shape a = length arrays # s \<and> well_formed a \<and>
             (\<forall>j < length arrays. slice0 a j = Inr (arrays ! j))"
proof -
  from ne obtain a0 rest where ar: "arrays = a0 # rest" by (cases arrays) auto
  let ?a = "NDArray (length arrays # s) (concat (map elems arrays))"
  have s0: "shape a0 = s" using sh ar by simp
  have st: "stack arrays = Inr ?a"
    using sh s0 by (simp add: stack_def ar list_all_iff)
  have le: "\<forall>x \<in> set (map elems arrays). length x = prod_list s"
    using sh by (auto simp: well_formed_def)
  have sl: "slice0 ?a j = Inr (arrays ! j)" if "j < length arrays" for j
  proof -
    have "take (prod_list s) (drop (j * prod_list s) (concat (map elems arrays))) = elems (arrays ! j)"
      using take_drop_concat [OF le, of j] that by simp
    moreover have "shape (arrays ! j) = s" using sh that by simp
    ultimately show ?thesis
      using that by (cases "arrays ! j") (simp add: slice0_def)
  qed
  have "length (concat (map elems arrays)) = length arrays * prod_list s"
    using le by (induction arrays) simp_all
  then have wf: "well_formed ?a" by (simp add: well_formed_def)
  from st sl wf show ?thesis by auto
qed

lemma comprehend_map:
  "\<forall>x \<in> set xs. f x = Inr (g x) \<Longrightarrow> comprehend f xs = Inr (map g xs)"
  by (induction xs) (simp_all add: bind_err_def)

lemma bind_err_Inr: "bind_err (Inr v) f = f v"
  by (simp add: bind_err_def)

lemma map_of_tabulated: "k \<in> set ks \<Longrightarrow> map_of (map (\<lambda>k. (k, h k)) ks) k = Some (h k)"
  by (induction ks) auto

lemma item_0: "samples \<noteq> [] \<Longrightarrow> item samples 0 = Inr (hd samples)"
  by (cases samples) (simp_all add: item_def)

lemma PU_collate_fn_stacks:
  assumes ne: "samples \<noteq> []" and same: "same_keys_and_shapes samples"
  shows "\<exists>d. PU_collate_fn samples = Inr d \<and> map fst d = map fst (hd samples) \<and>
           (\<forall>k \<in> set (map fst (hd samples)).
              \<exists>a b. map_of d k = Some a \<and> map_of (hd samples) k = Some b \<and>
                shape a = length samples # shape b \<and>
                (\<forall>j < length samples. slice0 a j = getitem (samples ! j) k))"
proof -
  let ?ks = "map fst (hd samples)"
  let ?col = "\<lambda>k. map (\<lambda>s. the (map_of s k)) samples"
  let ?g = "\<lambda>k. (k, projr (stack (?col k)))"
  have key: "\<exists>a b. map_of s k = Some a \<and> map_of (hd samples) k = Some b \<and>
               well_formed a \<and> shape a = shape b"
    if "s \<in> set samples" "k \<in> set ?ks" for s k
    using same that unfolding same_keys_and_shapes_def by blast
  have get: "getitem s k = Inr (the (map_of s k))" if "s \<in> set samples" "k \<in> set ?ks" for s k
    using key [OF that] by (auto simp: getitem_def)
  have col: "comprehend (\<lambda>s. getitem s k) samples = Inr (?col k)" if "k \<in> set ?ks" for k
    using get that by (intro comprehend_map) simp
  have st: "\<exists>a b. stack (?col k) = Inr a \<and> map_of (hd samples) k = Some b \<and>
              shape a = length samples # shape b \<and>
              (\<forall>j < length samples. slice0 a j = getitem (samples ! j) k)"
    if k: "k \<in> set ?ks" for k
  proof -
    from ne have "hd samples \<in> set samples" by simp
    from key [OF this k] obtain b where b: "map_of (hd samples) k = Some b" by auto
    have "\<forall>c \<in> set (?col k). shape c = shape b \<and> well_formed c"
      using key [OF _ k] b by fastforce
    from stack_slices [OF _ this] ne obtain a where
      a: "stack (?col k) = Inr a" "shape a = length (?col k) # shape b"
         "\<forall>j < length (?col k). slice0 a j = Inr (?col k ! j)"
      by auto
    have "slice0 a j = getitem (samples ! j) k" if "j < length samples" for j
      using a(3) that get [of "samples ! j" k] k by simp
    with a b show ?thesis by auto
  qed
  have body: "bind_err (comprehend (\<lambda>s. getitem s k) samples)
                (\<lambda>arrays. bind_err (stack arrays) (\<lambda>a. Inr (k, a))) = Inr (?g k)"
    if "k \<in> set ?ks" for k
    using st [OF that] col [OF that] by (auto simp: bind_err_def)
  have "comprehend (\<lambda>k. bind_err (comprehend (\<lambda>s. getitem s k) samples)
                (\<lambda>arrays. bind_err (stack arrays) (\<lambda>a. Inr (k, a)))) ?ks = Inr (map ?g ?ks)"
    by (rule comprehend_map) (use body in blast)
  then have res: "PU_collate_fn samples = Inr (map ?g ?ks)"
    unfolding PU_collate_fn_def Let_def item_0 [OF ne] bind_err_Inr .
  have "map fst (map ?g ?ks) = ?ks" by (simp add: o_def)
  moreover have "\<exists>a b. map_of (map ?g ?ks) k = Some a \<and> map_of (hd samples) k = Some b \<and>
                shape a = length samples # shape b \<and>
                (\<forall>j < length samples. slice0 a j = getitem (samples ! j) k)"
    if "k \<in> set ?ks" for k
    using st [OF that] map_of_tabulated [OF that, of "\<lambda>k. projr (stack (?col k))"] by auto
  ultimately show ?thesis using res by blast
qed

lemma MET_collate_fn_stacks:
  assumes ne: "samples \<noteq> []" and same: "same_arity_and_shapes samples"
  shows "\<exists>r. MET_collate_fn samples = Inr r \<and> length r = length (hd samples) \<and>
           (\<forall>i < length (hd samples).
              shape (r ! i) = length samples # shape (hd samples ! i) \<and>
              (\<forall>j < length samples. slice0 (r ! i) j = Inr (samples ! j ! i)))"
proof -
  let ?n = "length (hd samples)"
  let ?col = "\<lambda>i. map (\<lambda>s. s ! i) samples"
  let ?g = "\<lambda>i. projr (stack (?col i))"
  have el: "length s = ?n \<and> well_formed (s ! i) \<and> shape (s ! i) = shape (hd samples ! i)"
    if "s \<in> set samples" "i < ?n" for s i
    using same that unfolding same_arity_and_shapes_def by auto
  have col: "comprehend (\<lambda>s. item s i) samples = Inr (?col i)" if "i < ?n" for i
    using el that by (intro comprehend_map) (simp add: item_def)
  have st: "\<exists>a. stack (?col i) = Inr a \<and> shape a = length samples # shape (hd samples ! i) \<and>
              (\<forall>j < length samples. slice0 a j = Inr (samples ! j ! i))"
    if i: "i < ?n" for i
  proof -
    have "\<forall>c \<in> set (?col i). shape c = shape (hd samples ! i) \<and> well_formed c"
      using el [OF _ i] by auto
    from stack_slices [OF _ this] ne obtain a where
      a: "stack (?col i) = Inr a" "shape a = length (?col i) # shape (hd samples ! i)"
         "\<forall>j < length (?col i). slice0 a j = Inr (?col i ! j)"
      by auto
    then show ?thesis by auto
  qed
  have body: "bind_err (comprehend (\<lambda>s. item s i) samples) (\<lambda>arrays. stack arrays) = Inr (?g i)"
    if "i < ?n" for i
    using st [OF that] col [OF that] by (auto simp: bind_err_def)
  have "comprehend (\<lambda>i. bind_err (comprehend (\<lambda>s. item s i) samples) (\<lambda>arrays. stack arrays))
          [0..<?n] = Inr (map ?g [0..<?n])"
    by (rule comprehend_map) (use body in simp)
  then have res: "MET_collate_fn samples = Inr (map ?g [0..<?n])"
    unfolding MET_collate_fn_def Let_def item_0 [OF ne] bind_err_Inr .
  have "shape (map ?g [0..<?n] ! i) = length samples # shape (hd samples ! i) \<and>
        (\<forall>j < length samples. slice0 (map ?g [0..<?n] ! i) j = Inr (samples ! j ! i))"
    if "i < ?n" for i
    using st [OF that] that by auto
  then show ?thesis using res by auto
qed

text \<open>
  C6: for a non-empty list of samples with the same keys and, under each key, arrays of
  one shape, \<open>PU_collate_fn\<close> returns a dictionary with the keys of the first sample
  that maps each key \<open>k\<close> to an array with a new leading axis, whose slice at
  position \<open>j\<close> is \<open>samples[j][k]\<close>; \<open>MET_collate_fn\<close> does the same by tuple
  position.
\<close>

theorem collate_fn_stacks:
  "(samples \<noteq> [] \<and> same_keys_and_shapes samples \<longrightarrow>
      (\<exists>d. PU_collate_fn samples = Inr d \<and> map fst d = map fst (hd samples) \<and>
           (\<forall>k \<in> set (map fst (hd samples)).
              \<exists>a b. map_of d k = Some a \<and> map_of (hd samples) k = Some b \<and>
                shape a = length samples # shape b \<and>
                (\<forall>j < length samples. slice0 a j = getitem (samples ! j) k)))) \<and>
   (tuples \<noteq> [] \<and> same_arity_and_shapes tuples \<longrightarrow>
      (\<exists>r. MET_collate_fn tuples = Inr r \<and> length r = length (hd tuples) \<and>
           (\<forall>i < length (hd tuples).
              shape (r ! i) = length tuples # shape (hd tuples ! i) \<and>
              (\<forall>j < length tuples. slice0 (r ! i) j = Inr (tuples ! j ! i)))))"
  using PU_collate_fn_stacks [of samples] MET_collate_fn_stacks [of tuples] by blast

lemma ex_samples_ok: "ex_samples \<noteq> [] \<and> same_keys_and_shapes ex_samples"
  by (simp add: ex_samples_def same_keys_and_shapes_def well_formed_def)

lemma ex_tuples_ok: "ex_tuples \<noteq> [] \<and> same_arity_and_shapes ex_tuples"
  by (simp add: ex_tuples_def same_arity_and_shapes_def well_formed_def less_Suc_eq numeral_2_eq_2)

lemma ex_collated:
  "PU_collate_fn ex_samples =
     Inr [(''y'', NDArray [2, 2] [1, 0, 2, 3]), (''mjj'', NDArray [2] [5, 6])] \<and>
   slice0 (NDArray [2, 2] [1, 0, 2, 3 :: int]) 1 = Inr (NDArray [2] [2, 3]) \<and>
   MET_collate_fn ex_tuples = Inr [NDArray [2, 2] [1, 0, 2, 3], NDArray [2] [5, 6]]"
  by code_simp

theorem collate_fn_stacks_witness:
  "ex_samples \<noteq> [] \<and> same_keys_and_shapes ex_samples \<and>
   PU_collate_fn ex_samples =
     Inr [(''y'', NDArray [2, 2] [1, 0, 2, 3]), (''mjj'', NDArray [2] [5, 6])] \<and>
   slice0 (NDArray [2, 2] [1, 0, 2, 3 :: int]) 1 = Inr (NDArray [2] [2, 3]) \<and>
   ex_tuples \<noteq> [] \<and> same_arity_and_shapes ex_tuples \<and>
   MET_collate_fn ex_tuples = Inr [NDArray [2, 2] [1, 0, 2, 3], NDArray [2] [5, 6]]"
  using collate_fn_stacks [of ex_samples ex_tuples] ex_samples_ok ex_tuples_ok ex_collated
  by simp

section \<open>Scaling the missing energy\<close>




end
